theory Spec2Isabelle
  imports Complex_Main "HOL-Library.Sublist"
begin

section \<open>Strings\<close>

text \<open>
  A Python \<open>str\<close> is modelled as a \<open>string\<close>, one \<open>char\<close> per code point below 256,
  so \<open>length\<close> is Python's \<open>len\<close> on such text. \<open>is_space\<close> is \<open>str.isspace\<close> on one
  character of that range: TAB, LF, VT, FF, CR, FS, GS, RS, US, space, NEL and NBSP.
\<close>

definition is_space :: "char \<Rightarrow> bool" where
  "is_space c \<longleftrightarrow> (of_char c :: nat) \<in> {9, 10, 11, 12, 13, 28, 29, 30, 31, 32, 133, 160}"

text \<open>\<open>s.strip()\<close>: whitespace removed from both ends.\<close>

definition strip :: "string \<Rightarrow> string" where
  "strip s = rev (dropWhile is_space (rev (dropWhile is_space s)))"

text \<open>\<open>s.split(d)\<close> for a one-character separator: empty pieces are kept, and the
  result is never empty (\<open>''.split(' ')\<close> is \<open>['']\<close>).\<close>

primrec split_on :: "char \<Rightarrow> string \<Rightarrow> string list" where
  "split_on d [] = [[]]"
| "split_on d (c # cs) =
     (if c = d then [] # split_on d cs
      else (case split_on d cs of
              [] \<Rightarrow> [[c]]
            | w # ws \<Rightarrow> (c # w) # ws))"


text \<open>\<open>s.split()\<close>: the whitespace-delimited words of \<open>s\<close>. The first argument is
  the word being read.\<close>

fun words_from :: "string \<Rightarrow> string \<Rightarrow> string list" where
  "words_from cur [] = (if cur = [] then [] else [cur])"
| "words_from cur (c # cs) =
     (if is_space c then (if cur = [] then words_from [] cs else cur # words_from [] cs)
      else words_from (cur @ [c]) cs)"

definition words_of :: "string \<Rightarrow> string list" where
  "words_of s = words_from [] s"

section \<open>TextChunker: \<open>split_long_string\<close>\<close>

definition MAX_MESSAGE_LENGTH :: int where
  "MAX_MESSAGE_LENGTH = 2000"

text \<open>
  The \<open>for word in words\<close> loop, on the pair \<open>(result, current_line)\<close>:
  \<^verbatim>\<open>
  if len(f"{current_line} {word}") <= max_length:
      current_line += f" {word}"
  else:
      result.append(current_line.strip())
      current_line = word
  \<close>
\<close>

fun split_loop :: "int \<Rightarrow> string list \<Rightarrow> string list \<times> string \<Rightarrow> string list \<times> string" where
  "split_loop max_length [] (result, current_line) = (result, current_line)"
| "split_loop max_length (word # ws) (result, current_line) =
     (if int (length (current_line @ '' '' @ word)) \<le> max_length
      then split_loop max_length ws (result, current_line @ '' '' @ word)
      else split_loop max_length ws (result @ [strip current_line], word))"

definition split_long_string :: "string \<Rightarrow> int \<Rightarrow> string list" where
  "split_long_string text max_length =
     (case split_loop max_length (split_on CHR '' '' text) ([], []) of
        (result, current_line) \<Rightarrow>
          if current_line \<noteq> [] then result @ [strip current_line] else result)"


text \<open>
  Two notions the chunking round-trip property is worded with, defined from its words:
  the text with every maximal run of whitespace replaced by one space (the flag says
  that the previous character was whitespace), and the length of the longest
  whitespace-delimited word.
\<close>

primrec normalize_from :: "bool \<Rightarrow> string \<Rightarrow> string" where
  "normalize_from in_run [] = []"
| "normalize_from in_run (c # cs) =
     (if is_space c then (if in_run then normalize_from True cs
                          else CHR '' '' # normalize_from True cs)
      else c # normalize_from False cs)"

definition normalize_ws :: "string \<Rightarrow> string" where
  "normalize_ws s = normalize_from False s"

definition longest_word_length :: "string \<Rightarrow> nat" where
  "longest_word_length s = foldr max (map length (words_of s)) 0"

section \<open>CompletionClient: \<open>send_message_to_chatgpt\<close>\<close>

text \<open>A history entry is the dictionary \<open>{"content": ..., "role": ...}\<close>.\<close>

record message =
  content :: string
  role :: string

text \<open>
  The exceptions the modelled code can raise: tenacity's \<open>RetryError\<close>, raised by the
  \<open>@retry\<close> decorator once \<open>stop_after_attempt(3)\<close> stops it, the
  \<open>ZeroDivisionError\<close> of \<open>%\<close>, and the \<open>OverflowError\<close> of converting an
  integer too large for a float.
\<close>

datatype error = RetryError | ZeroDivisionError | OverflowError

text \<open>
  The remote endpoint \<open>openai.ChatCompletion.create\<close> is the environment: attempt number
  \<open>k\<close> (counted over the whole run), made with a model name and a history, either raises
  (\<open>None\<close>) or answers with the content of its first choice. The waits between
  attempts (\<open>wait_random_exponential\<close>) take time only and are not modelled.
\<close>

type_synonym endpoint = "nat \<Rightarrow> string \<Rightarrow> message list \<Rightarrow> string option"

text \<open>The decorated call: the first argument is the number of attempts left, the last
  the number of attempts made so far, returned updated.\<close>

fun retry :: "nat \<Rightarrow> endpoint \<Rightarrow> string \<Rightarrow> message list \<Rightarrow> nat \<Rightarrow> (error + string) \<times> nat" where
  "retry 0 ep model messages k = (Inl RetryError, k)"
| "retry (Suc n) ep model messages k =
     (case ep k model messages of
        Some response \<Rightarrow> (Inr response, Suc k)
      | None \<Rightarrow> retry n ep model messages (Suc k))"

definition call_openai_chat_api ::
  "endpoint \<Rightarrow> string \<Rightarrow> message list \<Rightarrow> nat \<Rightarrow> (error + string) \<times> nat" where
  "call_openai_chat_api ep model messages k = retry 3 ep model messages k"

text \<open>\<open>messages\<close> is mutated in place by the source; the model returns the new list,
  also when the call raises.\<close>

definition send_message_to_chatgpt ::
  "endpoint \<Rightarrow> message list \<Rightarrow> string \<Rightarrow> string \<Rightarrow> nat
     \<Rightarrow> (error + string) \<times> message list \<times> nat" where
  "send_message_to_chatgpt ep messages message model k =
     (let messages1 = messages @ [\<lparr>content = message, role = ''user''\<rparr>] in
      case call_openai_chat_api ep model messages1 k of
        (Inl e, k') \<Rightarrow> (Inl e, messages1, k')
      | (Inr gpt_response, k') \<Rightarrow>
          (Inr gpt_response,
           messages1 @ [\<lparr>content = gpt_response, role = ''system''\<rparr>], k'))"

section \<open>Python floats\<close>

text \<open>
  A finite Python float is modelled by the rational number it stands for. \<open>rnd x\<close> is
  the binary64 number nearest to \<open>x\<close>, a tie going to the even significand: the result
  of a true division of integers, of a conversion of an integer, and of an addition or
  subtraction of floats, on the exact result \<open>x\<close>. The exponent of \<open>x\<close> is searched from
  1023 down to -1021 and is -1022 for anything smaller, which covers the subnormal
  numbers; a number is a multiple of \<open>2\<close> to its exponent minus 52.
\<close>

primrec exp_search :: "nat \<Rightarrow> rat \<Rightarrow> int" where
  "exp_search 0 a = - 1022"
| "exp_search (Suc n) a =
     (if 2 powi (int n - 1021) \<le> a then int n - 1021 else exp_search n a)"

definition exponent :: "rat \<Rightarrow> int" where
  "exponent x = exp_search 2045 \<bar>x\<bar>"

definition quantum :: "rat \<Rightarrow> rat" where
  "quantum x = 2 powi (exponent x - 52)"

definition round_half_even :: "rat \<Rightarrow> int" where
  "round_half_even y =
     (let f = \<lfloor>y\<rfloor>; d = y - of_int f
      in if d < 1 / 2 then f else if 1 / 2 < d then f + 1 else if even f then f else f + 1)"

definition rnd :: "rat \<Rightarrow> rat" where
  "rnd x = of_int (round_half_even (x / quantum x)) * quantum x"

text \<open>The conversion of an integer to a float, as in \<open>float + int\<close>: it raises when
  the nearest float would be out of range.\<close>

definition to_float :: "int \<Rightarrow> error + rat" where
  "to_float i =
     (if \<bar>rnd (of_int i)\<bar> < 2 ^ 1024 then Inr (rnd (of_int i)) else Inl OverflowError)"

section \<open>Scheduler: the delay computed in \<open>send_periodic_message\<close>\<close>

text \<open>\<open>datetime.datetime.now()\<close>, the fields the code reads.\<close>

record datetime =
  hour :: nat
  minute :: nat
  second :: nat
  microsecond :: nat

definition valid_time :: "datetime \<Rightarrow> bool" where
  "valid_time now \<longleftrightarrow>
     hour now < 24 \<and> minute now < 60 \<and> second now < 60 \<and> microsecond now < 1000000"

text \<open>
  \<open>3600 - now.minute * 60 - now.second - now.microsecond / 1_000_000\<close>: the first two
  subtractions are on integers, the division is a true division and gives a float, and
  the last subtraction converts the integer to a float and subtracts in floats.
\<close>

definition seconds_till_next_hour :: "datetime \<Rightarrow> rat" where
  "seconds_till_next_hour now =
     rnd (rnd (of_int (3600 - int (minute now) * 60 - int (second now)))
          - rnd (of_int (int (microsecond now)) / of_int 1000000))"

text \<open>\<open>(now.hour + 1) % int(self.cadence)\<close>; Python's \<open>%\<close> takes the sign of the
  divisor, as \<open>mod\<close> on \<open>int\<close> does, and raises on a zero divisor.\<close>

definition more_hours :: "datetime \<Rightarrow> int \<Rightarrow> error + int" where
  "more_hours now cadence =
     (if cadence = 0 then Inl ZeroDivisionError else Inr ((int (hour now) + 1) mod cadence))"

text \<open>\<open>seconds_till_next_hour + more_hours * 3600\<close>: the product is an integer,
  converted to a float for the float addition. The first summand is at most 3600 for a
  well-formed timestamp, so the sum of the two finite floats is finite.\<close>

definition seconds_till_next_run :: "datetime \<Rightarrow> int \<Rightarrow> error + rat" where
  "seconds_till_next_run now cadence =
     (case more_hours now cadence of
        Inl e \<Rightarrow> Inl e
      | Inr h \<Rightarrow>
          (case to_float (h * 3600) of
             Inl e \<Rightarrow> Inl e
           | Inr f \<Rightarrow> Inr (rnd (seconds_till_next_hour now + f))))"

text \<open>
  The notions the alignment properties are worded with, defined from their words: the
  seconds since midnight of a timestamp, the seconds left until the next wall-clock hour
  boundary, whether an instant (in seconds since midnight, possibly past the end of the
  day) is on an hour boundary, and its hour of day.
\<close>

definition seconds_of_day :: "datetime \<Rightarrow> rat" where
  "seconds_of_day now =
     of_nat (hour now * 3600 + minute now * 60 + second now) + of_nat (microsecond now) / 1000000"

definition seconds_to_next_hour_boundary :: "datetime \<Rightarrow> rat" where
  "seconds_to_next_hour_boundary now = of_nat ((hour now + 1) * 3600) - seconds_of_day now"

definition on_hour_boundary :: "rat \<Rightarrow> bool" where
  "on_hour_boundary t \<longleftrightarrow> of_int \<lfloor>t / 3600\<rfloor> * 3600 = t"

definition hour_of_day :: "rat \<Rightarrow> int" where
  "hour_of_day t = \<lfloor>t / 3600\<rfloor> mod 24"

section \<open>SessionController: \<open>GptBot\<close>\<close>

text \<open>
  The bot's fields, with the part of the world it acts on: \<open>sent\<close> logs every
  \<open>send\<close>, to the configured user or to the context of a command, \<open>slept\<close> every
  \<open>asyncio.sleep\<close>, and \<open>calls\<close> counts the attempts made on the endpoint.
  Handlers are modelled as running one at a time.
\<close>

datatype dest = ToUser | ToCtx

record bot =
  model :: string
  task_prompt :: string
  loop_prompt :: string
  cadence :: int
  messages :: "message list"
  initialized :: bool
  sent :: "(dest \<times> string) list"
  slept :: "rat list"
  calls :: nat

definition send :: "dest \<Rightarrow> string \<Rightarrow> bot \<Rightarrow> bot" where
  "send d txt s = s\<lparr>sent := sent s @ [(d, txt)]\<rparr>"

text \<open>\<open>xs[:stop]\<close>.\<close>

definition slice_to :: "int \<Rightarrow> 'a list \<Rightarrow> 'a list" where
  "slice_to stop xs =
     (if stop < 0 then take (nat (int (length xs) + stop)) xs else take (nat stop) xs)"

definition retract_last_n_message :: "int \<Rightarrow> bot \<Rightarrow> bot" where
  "retract_last_n_message n s = s\<lparr>messages := slice_to (- n) (messages s)\<rparr>"

text \<open>\<open>loop.run_in_executor(None, send_message_to_chatgpt, self.messages, message,
  self.model)\<close>, awaited.\<close>

definition run_in_executor :: "endpoint \<Rightarrow> string \<Rightarrow> bot \<Rightarrow> (error + string) \<times> bot" where
  "run_in_executor ep message s =
     (case send_message_to_chatgpt ep (messages s) message (model s) (calls s) of
        (res, messages', k') \<Rightarrow> (res, s\<lparr>messages := messages', calls := k'\<rparr>))"

text \<open>\<open>s.lower()\<close> on code points below 256: A to Z and the accented capitals
  0xC0 to 0xDE, the multiplication sign 0xD7 apart, move up by 32.\<close>

definition lower_char :: "char \<Rightarrow> char" where
  "lower_char c =
     (let n = (of_char c :: nat) in
      if (65 \<le> n \<and> n \<le> 90) \<or> (192 \<le> n \<and> n \<le> 222 \<and> n \<noteq> 215) then char_of (n + 32) else c)"

definition lower :: "string \<Rightarrow> string" where
  "lower s = map lower_char s"

text \<open>
  \<open>send_periodic_message\<close> up to the \<open>while True\<close>: the second argument says whether
  \<open>fetch_user\<close> gave a user. It ends by raising, by doing nothing for want of a user, or
  by entering the loop.
\<close>

datatype outcome = Ignored | NoRecipient | Looping

text \<open>The two fixed messages of the handshake: the f-string around the task prompt,
  and the notice.\<close>

definition instruction_message :: "string \<Rightarrow> string" where
  "instruction_message task = ''Your initial instruction to ChatGPT: ```'' @ task @ ''```''"

definition generating_message :: string where
  "generating_message = ''ChatGPT is now generating the plan for you...''"

definition handshake :: "endpoint \<Rightarrow> bool \<Rightarrow> bot \<Rightarrow> (error + outcome) \<times> bot" where
  "handshake ep user_found s =
     (if \<not> user_found then (Inr NoRecipient, s)
      else
        let s1 = send ToUser (instruction_message (task_prompt s)) s;
            s2 = send ToUser generating_message s1
        in case run_in_executor ep (task_prompt s2) s2 of
             (Inl e, s3) \<Rightarrow> (Inl e, s3)
           | (Inr gpt_response, s3) \<Rightarrow>
               let s4 = (if int (length gpt_response) > MAX_MESSAGE_LENGTH
                         then foldl (\<lambda>st line. send ToUser line st) s3
                                (split_long_string gpt_response MAX_MESSAGE_LENGTH)
                         else send ToUser gpt_response s3)
               in case run_in_executor ep (loop_prompt s4) s4 of
                    (Inl e, s5) \<Rightarrow> (Inl e, s5)
                  | (Inr _, s5) \<Rightarrow> (Inr Looping, s5))"

text \<open>One turn of the \<open>while True\<close> loop after its sleep: \<open>time\<close> is the formatted
  clock reading.\<close>

definition tick :: "endpoint \<Rightarrow> string \<Rightarrow> bot \<Rightarrow> (error + unit) \<times> bot" where
  "tick ep time s =
     (case run_in_executor ep (''SCHEDULER: '' @ time) s of
        (Inl e, s1) \<Rightarrow> (Inl e, s1)
      | (Inr gpt_response, s1) \<Rightarrow>
          if sublist ''nothing to do now'' (lower gpt_response)
          then (Inr (), retract_last_n_message 2 s1)
          else (Inr (), send ToUser gpt_response s1))"

text \<open>One whole turn of the loop: the delay is computed from the clock reading
  \<open>now\<close>, slept, and the tick follows.\<close>

definition loop_iteration :: "endpoint \<Rightarrow> datetime \<Rightarrow> string \<Rightarrow> bot \<Rightarrow> (error + unit) \<times> bot" where
  "loop_iteration ep now time s =
     (case seconds_till_next_run now (cadence s) of
        Inl e \<Rightarrow> (Inl e, s)
      | Inr seconds \<Rightarrow> tick ep time (s\<lparr>slept := slept s @ [seconds]\<rparr>))"

text \<open>\<open>on_ready\<close>: the task it creates runs \<open>send_periodic_message\<close>; the model runs
  it up to the loop.\<close>

definition on_ready :: "endpoint \<Rightarrow> bool \<Rightarrow> bot \<Rightarrow> (error + outcome) \<times> bot" where
  "on_ready ep user_found s =
     (if initialized s then (Inr Ignored, s)
      else handshake ep user_found (s\<lparr>initialized := True\<rparr>))"

text \<open>The commands \<open>hello\<close> (its argument is \<open>ctx.author.mention\<close>), \<open>echo\<close>
  and \<open>g\<close>.\<close>

definition hello :: "string \<Rightarrow> bot \<Rightarrow> bot" where
  "hello mention s = send ToCtx (''Hello, '' @ mention @ ''!'') s"

definition echo :: "string \<Rightarrow> bot \<Rightarrow> bot" where
  "echo message s = send ToCtx message s"

definition g :: "endpoint \<Rightarrow> string \<Rightarrow> bot \<Rightarrow> (error + unit) \<times> bot" where
  "g ep message s =
     (case run_in_executor ep message s of
        (Inl e, s1) \<Rightarrow> (Inl e, s1)
      | (Inr gpt_response, s1) \<Rightarrow> (Inr (), send ToCtx gpt_response s1))"

text \<open>
  Two fixtures: the session of the handshake example (task \<open>Plan my day\<close>, loop
  \<open>Remind me hourly\<close>) before the first readiness signal, and a reply of 2001
  characters made of 1001 one-letter words.
\<close>

definition demo_bot :: bot where
  "demo_bot =
     \<lparr>model = ''gpt-4'', task_prompt = ''Plan my day'', loop_prompt = ''Remind me hourly'',
      cadence = 1, messages = [], initialized = False, sent = [], slept = [], calls = 0\<rparr>"

definition long_reply :: string where
  "long_reply = concat (replicate 1000 ''x '') @ ''x''"

section \<open>Properties of the chunker\<close>

lemma split_on_not_Nil: "split_on d s \<noteq> []"
  by (induction s) (auto split: list.splits)

lemma split_loop_result_mono:
  "result \<noteq> [] \<Longrightarrow> fst (split_loop m ws (result, cur)) \<noteq> []"
  by (induction ws arbitrary: result cur) auto

lemma split_loop_nonempty:
  "ws \<noteq> [] \<Longrightarrow> fst (split_loop m ws (result, cur)) \<noteq> [] \<or> snd (split_loop m ws (result, cur)) \<noteq> []"
proof (induction ws arbitrary: result cur)
  case Nil
  then show ?case by simp
next
  case (Cons w ws)
  show ?case
  proof (cases "int (length (cur @ '' '' @ w)) \<le> m")
    case fits: True
    show ?thesis
    proof (cases ws)
      case Nil
      with fits show ?thesis by simp
    next
      case (Cons v vs)
      then have "ws \<noteq> []" by simp
      from Cons.IH [OF this, of result "cur @ '' '' @ w"] fits show ?thesis by simp
    qed
  next
    case False
    then show ?thesis
      using split_loop_result_mono [of "result @ [strip cur]" m ws w] by simp
  qed
qed

lemma split_long_string_not_Nil: "split_long_string text m \<noteq> []"
proof -
  obtain r c where rc: "split_loop m (split_on CHR '' '' text) ([], []) = (r, c)"
    by (cases "split_loop m (split_on CHR '' '' text) ([], [])")
  from split_loop_nonempty [OF split_on_not_Nil, of m "CHR '' ''" "text" "[]" "[]"] rc
  have "r \<noteq> [] \<or> c \<noteq> []" by simp
  then show ?thesis by (auto simp: split_long_string_def rc)
qed

lemma strip_Nil: "strip [] = []" by (simp add: strip_def)
lemma is_space_space: "is_space CHR '' ''" by (simp add: is_space_def)
lemma strip_space: "strip '' '' = []" by (simp add: strip_def is_space_space)

lemma split_long_string_empty: "split_long_string [] m = [[]]"
  by (simp add: split_long_string_def strip_Nil strip_space)











lemma length_strip_le: "length (strip s) \<le> length s"
proof -
  have "length (strip s) \<le> length (dropWhile is_space s)"
    unfolding strip_def length_rev using length_dropWhile_le [of is_space "rev (dropWhile is_space s)"] by simp
  also have "\<dots> \<le> length s" by (rule length_dropWhile_le)
  finally show ?thesis .
qed

lemma split_loop_bound:
  "split_loop m ws (r, c) = (r', c') \<Longrightarrow>
   \<forall>x\<in>set r. int (length x) \<le> m \<Longrightarrow> int (length c) \<le> m \<Longrightarrow>
   \<forall>w\<in>set ws. int (length w) \<le> m \<Longrightarrow>
   (\<forall>x\<in>set r'. int (length x) \<le> m) \<and> int (length c') \<le> m"
proof (induction ws arbitrary: r c)
  case Nil
  then show ?case by simp
next
  case (Cons w ws)
  show ?case
  proof (cases "int (length (c @ '' '' @ w)) \<le> m")
    case True
    with Cons.prems(1) have "split_loop m ws (r, c @ '' '' @ w) = (r', c')" by simp
    from Cons.IH [OF this] Cons.prems(2,4) True show ?thesis by simp
  next
    case False
    with Cons.prems(1) have step: "split_loop m ws (r @ [strip c], w) = (r', c')" by simp
    have "int (length (strip c)) \<le> m"
      using length_strip_le [of c] Cons.prems(3) by linarith
    with Cons.IH [OF step] Cons.prems(2,4) show ?thesis by simp
  qed
qed

lemma split_long_string_bound:
  assumes "\<forall>w\<in>set (split_on CHR '' '' text). int (length w) \<le> m"
  shows "\<forall>seg\<in>set (split_long_string text m). int (length seg) \<le> m"
proof -
  obtain r c where rc: "split_loop m (split_on CHR '' '' text) ([], []) = (r, c)"
    by (cases "split_loop m (split_on CHR '' '' text) ([], [])")
  obtain w ws where "split_on CHR '' '' text = w # ws"
    using split_on_not_Nil [of "CHR '' ''" "text"] by (cases "split_on CHR '' '' text") auto
  with assms have "0 \<le> m" by fastforce
  with split_loop_bound [OF rc] assms
  have inv: "(\<forall>x\<in>set r. int (length x) \<le> m) \<and> int (length c) \<le> m" by simp
  then have "int (length (strip c)) \<le> m" using length_strip_le [of c] by linarith
  with inv show ?thesis by (auto simp: split_long_string_def rc)
qed

lemma is_space_simps:
  "is_space CHR ''a'' = False" "is_space CHR ''b'' = False" "is_space CHR ''c'' = False"
  "is_space CHR ''d'' = False" "is_space CHR ''e'' = False" "is_space CHR ''f'' = False"
  "is_space (CHR 0x09) = True"
  by (simp_all add: is_space_def)

text \<open>
  Claim C8, as the code has it. \<open>split_long_string\<close> is a total function with no error
  result: no step of the source can raise on a string and an integer. It returns at
  least one segment for every input string, the empty one included: for the empty
  string the only word is empty, the pending line becomes one space (or, when
  \<open>max_length < 1\<close>, the empty pending line is flushed), and the result is the single
  empty segment.
\<close>

theorem split_long_string_segments:
  "split_long_string text m \<noteq> [] \<and> split_long_string [] m = [[]]"
  by (simp add: split_long_string_not_Nil split_long_string_empty)

text \<open>Claim C8 as stated asks for zero segments on the empty string; at the default
  maximum the code returns one.\<close>

theorem split_long_string_empty_counterexample:
  "split_long_string [] MAX_MESSAGE_LENGTH = [[]] \<and> split_long_string [] MAX_MESSAGE_LENGTH \<noteq> []"
  by (simp add: split_long_string_empty)




text \<open>
  Two more inputs behind the wording of the round trip. The text is split at spaces
  only, so a piece can hold several whitespace-delimited words and pass the maximum
  although no word does; and a run of spaces inside a segment is kept as it is.
\<close>

lemma split_long_string_tab_token:
  "int (longest_word_length [CHR ''a'', CHR 0x09, CHR ''b'']) \<le> 1 \<and>
   split_long_string [CHR ''a'', CHR 0x09, CHR ''b''] 1 = [[], [CHR ''a'', CHR 0x09, CHR ''b'']]"
  by (simp add: longest_word_length_def words_of_def split_long_string_def
      strip_def is_space_simps)

lemma split_long_string_inner_run:
  "split_long_string ''a  b'' 10 = [''a  b''] \<and> normalize_ws ''a  b'' = ''a b''"
  by (simp add: normalize_ws_def split_long_string_def strip_def is_space_simps is_space_space)

section \<open>Properties of the completion client\<close>

lemma retry_all_fail:
  "\<forall>i<n. ep (k + i) mdl msgs = None \<Longrightarrow> retry n ep mdl msgs k = (Inl RetryError, k + n)"
proof (induction n arbitrary: k)
  case 0
  then show ?case by simp
next
  case (Suc n)
  from Suc.prems have first: "ep k mdl msgs = None" by (metis add.right_neutral zero_less_Suc)
  have "\<forall>i<n. ep (Suc k + i) mdl msgs = None"
  proof (intro allI impI)
    fix i assume "i < n"
    then have "Suc i < Suc n" by simp
    with Suc.prems have "ep (k + Suc i) mdl msgs = None" by blast
    then show "ep (Suc k + i) mdl msgs = None" by simp
  qed
  from Suc.IH [OF this] first show ?case by simp
qed

lemma retry_some_success:
  "\<exists>i<n. ep (k + i) mdl msgs \<noteq> None \<Longrightarrow> \<exists>r. fst (retry n ep mdl msgs k) = Inr r"
proof (induction n arbitrary: k)
  case 0
  then show ?case by simp
next
  case (Suc n)
  show ?case
  proof (cases "ep k mdl msgs")
    case (Some r)
    then show ?thesis by simp
  next
    case None
    from Suc.prems obtain i where i: "i < Suc n" "ep (k + i) mdl msgs \<noteq> None" by blast
    with None have "i \<noteq> 0" by (cases i) auto
    then obtain j where j: "i = Suc j" by (cases i) auto
    with i have "\<exists>j<n. ep (Suc k + j) mdl msgs \<noteq> None" by auto
    from Suc.IH [OF this] None show ?thesis by simp
  qed
qed

lemma retry_attempts_le: "snd (retry n ep mdl msgs k) \<le> k + n"
proof (induction n arbitrary: k)
  case 0
  then show ?case by simp
next
  case (Suc n)
  show ?case
  proof (cases "ep k mdl msgs")
    case (Some r)
    then show ?thesis by simp
  next
    case None
    with Suc.IH [of "Suc k"] show ?thesis by simp
  qed
qed

lemma retry_3_eval:
  "retry 3 ep mdl msgs k =
     (case ep k mdl msgs of Some r \<Rightarrow> (Inr r, Suc k)
      | None \<Rightarrow> (case ep (Suc k) mdl msgs of Some r \<Rightarrow> (Inr r, Suc (Suc k))
         | None \<Rightarrow> (case ep (Suc (Suc k)) mdl msgs of Some r \<Rightarrow> (Inr r, Suc (Suc (Suc k)))
            | None \<Rightarrow> (Inl RetryError, Suc (Suc (Suc k))))))"
  by (simp add: numeral_3_eq_3 split: option.splits)

lemma send_message_to_chatgpt_fst:
  "fst (send_message_to_chatgpt ep msgs m mdl k) =
     fst (retry 3 ep mdl (msgs @ [\<lparr>content = m, role = ''user''\<rparr>]) k)"
  by (simp add: send_message_to_chatgpt_def call_openai_chat_api_def Let_def
      split: prod.splits sum.splits)

lemma send_message_to_chatgpt_calls:
  "snd (snd (send_message_to_chatgpt ep msgs m mdl k)) =
     snd (retry 3 ep mdl (msgs @ [\<lparr>content = m, role = ''user''\<rparr>]) k)"
  by (simp add: send_message_to_chatgpt_def call_openai_chat_api_def Let_def
      split: prod.splits sum.splits)

lemma send_message_to_chatgpt_history:
  "fst (snd (send_message_to_chatgpt ep msgs m mdl k)) =
     (case fst (send_message_to_chatgpt ep msgs m mdl k) of
        Inl e \<Rightarrow> msgs @ [\<lparr>content = m, role = ''user''\<rparr>]
      | Inr r \<Rightarrow> msgs @ [\<lparr>content = m, role = ''user''\<rparr>, \<lparr>content = r, role = ''system''\<rparr>])"
  by (simp add: send_message_to_chatgpt_def call_openai_chat_api_def Let_def
      split: prod.splits sum.splits)

text \<open>
  Claim C6. \<open>send_message_to_chatgpt\<close> never makes more than three attempts on the
  endpoint. When the three attempts all fail, it has made exactly three and its result is
  the error \<open>RetryError\<close>, handed to the caller: nothing in it catches the error. When
  one of the three attempts would succeed, its result is a reply and no error.
\<close>

theorem retry_exhaustion:
  "((\<forall>i<3. ep (k + i) mdl (msgs @ [\<lparr>content = m, role = ''user''\<rparr>]) = None) \<longrightarrow>
      fst (send_message_to_chatgpt ep msgs m mdl k) = Inl RetryError \<and>
      snd (snd (send_message_to_chatgpt ep msgs m mdl k)) = k + 3) \<and>
   ((\<exists>i<3. ep (k + i) mdl (msgs @ [\<lparr>content = m, role = ''user''\<rparr>]) \<noteq> None) \<longrightarrow>
      (\<exists>r. fst (send_message_to_chatgpt ep msgs m mdl k) = Inr r)) \<and>
   snd (snd (send_message_to_chatgpt ep msgs m mdl k)) \<le> k + 3"
proof (intro conjI impI)
  assume "\<forall>i<3. ep (k + i) mdl (msgs @ [\<lparr>content = m, role = ''user''\<rparr>]) = None"
  with retry_all_fail [of 3 ep k mdl "msgs @ [\<lparr>content = m, role = ''user''\<rparr>]"]
  show "fst (send_message_to_chatgpt ep msgs m mdl k) = Inl RetryError"
    and "snd (snd (send_message_to_chatgpt ep msgs m mdl k)) = k + 3"
    by (simp_all add: send_message_to_chatgpt_fst send_message_to_chatgpt_calls)
next
  assume "\<exists>i<3. ep (k + i) mdl (msgs @ [\<lparr>content = m, role = ''user''\<rparr>]) \<noteq> None"
  with retry_some_success [of 3 ep k mdl "msgs @ [\<lparr>content = m, role = ''user''\<rparr>]"]
  show "\<exists>r. fst (send_message_to_chatgpt ep msgs m mdl k) = Inr r"
    by (simp add: send_message_to_chatgpt_fst)
next
  show "snd (snd (send_message_to_chatgpt ep msgs m mdl k)) \<le> k + 3"
    by (simp add: send_message_to_chatgpt_calls retry_attempts_le)
qed

theorem retry_exhaustion_witness:
  "fst (send_message_to_chatgpt (\<lambda>(k::nat) mdl msgs. None) [] ''hi'' ''gpt-4'' 0) = Inl RetryError \<and>
   snd (snd (send_message_to_chatgpt (\<lambda>(k::nat) mdl msgs. None) [] ''hi'' ''gpt-4'' 0)) = 3 \<and>
   (\<exists>r. fst (send_message_to_chatgpt (\<lambda>(k::nat) mdl msgs. if k = 2 then Some ''ok'' else None)
            [] ''hi'' ''gpt-4'' 0) = Inr r)"
proof -
  have "\<exists>i<3. (\<lambda>(k::nat) mdl msgs. if k = 2 then Some ''ok'' else None) (0 + i) ''gpt-4''
          ([] @ [\<lparr>content = ''hi'', role = ''user''\<rparr>]) \<noteq> None"
    by (rule exI [of _ "2::nat"]) simp
  with retry_exhaustion [of "\<lambda>(k::nat) mdl msgs. None" 0 "''gpt-4''" "[]" "''hi''"]
    retry_exhaustion [of "\<lambda>(k::nat) mdl msgs. if k = 2 then Some ''ok'' else None" 0 "''gpt-4''" "[]" "''hi''"]
  show ?thesis by simp
qed

text \<open>
  Claim C10. When the endpoint fails on all three attempts, the call ends with the error
  and the history it was given plus exactly one entry, the user-role message with the
  new content: the entry appended before the remote call stays.
\<close>

theorem failed_call_keeps_user_entry:
  "\<forall>i<3. ep (k + i) mdl (msgs @ [\<lparr>content = m, role = ''user''\<rparr>]) = None \<Longrightarrow>
   send_message_to_chatgpt ep msgs m mdl k =
     (Inl RetryError, msgs @ [\<lparr>content = m, role = ''user''\<rparr>], k + 3)"
  using retry_all_fail [of 3 ep k mdl "msgs @ [\<lparr>content = m, role = ''user''\<rparr>]"]
  by (simp add: send_message_to_chatgpt_def call_openai_chat_api_def Let_def)

theorem failed_call_keeps_user_entry_witness:
  "send_message_to_chatgpt (\<lambda>(k::nat) mdl msgs. None) [\<lparr>content = ''old'', role = ''user''\<rparr>] ''hi'' ''gpt-4'' 5 =
     (Inl RetryError, [\<lparr>content = ''old'', role = ''user''\<rparr>, \<lparr>content = ''hi'', role = ''user''\<rparr>], 8)"
  using failed_call_keeps_user_entry [of "\<lambda>(k::nat) mdl msgs. None" 5 "''gpt-4''" "[\<lparr>content = ''old'', role = ''user''\<rparr>]" "''hi''"]
  by simp

text \<open>
  Claim C4, as the code has it. Every call that returns a reply, on the first attempt or
  after retries, leaves the history it was given followed by exactly two entries: the
  user-role message with the new content, then the system-role message with the reply.
\<close>

theorem history_append:
  "fst (send_message_to_chatgpt ep msgs m mdl k) = Inr r \<Longrightarrow>
   fst (snd (send_message_to_chatgpt ep msgs m mdl k)) =
     msgs @ [\<lparr>content = m, role = ''user''\<rparr>, \<lparr>content = r, role = ''system''\<rparr>]"
  by (simp add: send_message_to_chatgpt_history)

theorem history_append_witness:
  "fst (send_message_to_chatgpt (\<lambda>(k::nat) mdl msgs. if k = 2 then Some ''ok'' else None)
          [\<lparr>content = ''old'', role = ''user''\<rparr>] ''hi'' ''gpt-4'' 0) = Inr ''ok'' \<and>
   fst (snd (send_message_to_chatgpt (\<lambda>(k::nat) mdl msgs. if k = 2 then Some ''ok'' else None)
          [\<lparr>content = ''old'', role = ''user''\<rparr>] ''hi'' ''gpt-4'' 0)) =
     [\<lparr>content = ''old'', role = ''user''\<rparr>, \<lparr>content = ''hi'', role = ''user''\<rparr>,
      \<lparr>content = ''ok'', role = ''system''\<rparr>]"
proof -
  have h: "fst (send_message_to_chatgpt (\<lambda>(k::nat) mdl msgs. if k = 2 then Some ''ok'' else None)
          [\<lparr>content = ''old'', role = ''user''\<rparr>] ''hi'' ''gpt-4'' 0) = Inr ''ok''"
    by (simp add: send_message_to_chatgpt_fst retry_3_eval)
  from history_append [OF h] h show ?thesis by simp
qed

text \<open>Claim C4 as stated covers every call; a call whose three attempts all fail
  appends one entry, not two.\<close>

theorem history_append_counterexample:
  "fst (snd (send_message_to_chatgpt (\<lambda>(k::nat) mdl msgs. None) [] ''hi'' ''gpt-4'' 0)) =
     [\<lparr>content = ''hi'', role = ''user''\<rparr>] \<and>
   length (fst (snd (send_message_to_chatgpt (\<lambda>(k::nat) mdl msgs. None) [] ''hi'' ''gpt-4'' 0))) \<noteq>
     length ([] :: message list) + 2"
  by (simp add: send_message_to_chatgpt_def call_openai_chat_api_def Let_def retry_3_eval)

section \<open>Properties of float rounding\<close>

lemma exp_search_range: "- 1022 \<le> exp_search n a \<and> exp_search n a \<le> int n - 1022"
  by (induction n) auto

lemma exp_search_lower: "exp_search n a \<noteq> - 1022 \<Longrightarrow> 2 powi (exp_search n a) \<le> a"
  by (induction n) (auto split: if_splits)

lemma exp_search_upper:
  "a < 2 powi (int n - 1021) \<Longrightarrow> a < 2 powi (exp_search n a + 1)"
proof (induction n)
  case 0
  then show ?case by simp
next
  case (Suc n)
  show ?case
  proof (cases "2 powi (int n - 1021) \<le> a")
    case True
    with Suc.prems show ?thesis by (simp add: algebra_simps)
  next
    case False
    then have "a < 2 powi (int n - 1021)" by simp
    from Suc.IH [OF this] False show ?thesis by simp
  qed
qed

lemma exp_search_le:
  assumes "a < 2 powi (k + 1)" and "- 1022 \<le> k"
  shows "exp_search n a \<le> k"
proof (cases "exp_search n a = - 1022")
  case True
  with assms(2) show ?thesis by simp
next
  case False
  from exp_search_lower [OF False] assms(1)
  have lt: "(2::rat) powi (exp_search n a) < 2 powi (k + 1)" by simp
  show ?thesis
  proof (rule ccontr)
    assume "\<not> exp_search n a \<le> k"
    then have "k + 1 \<le> exp_search n a" by simp
    then have "(2::rat) powi (k + 1) \<le> 2 powi (exp_search n a)"
      by (rule power_int_increasing) simp
    with lt show False by simp
  qed
qed

lemma exp_search_ge:
  "2 powi k \<le> a \<Longrightarrow> k \<le> int n - 1022 \<Longrightarrow> k \<le> exp_search n a"
proof (induction n)
  case 0
  then show ?case by simp
next
  case (Suc n)
  show ?case
  proof (cases "2 powi (int n - 1021) \<le> a")
    case True
    with Suc.prems show ?thesis by simp
  next
    case False
    with Suc.prems(1) have "(2::rat) powi k < 2 powi (int n - 1021)" by simp
    then have "k < int n - 1021"
      by (metis linorder_not_less power_int_increasing one_le_numeral)
    with Suc.IH Suc.prems(1) False show ?thesis by simp
  qed
qed

lemma exponent_eq:
  assumes "2 powi e \<le> \<bar>x\<bar>" and "\<bar>x\<bar> < 2 powi (e + 1)" and "- 1022 \<le> e" and "e \<le> 1023"
  shows "exponent x = e"
proof -
  have "exponent x \<le> e" unfolding exponent_def using assms(2,3) by (rule exp_search_le)
  moreover have "e \<le> exponent x" unfolding exponent_def using assms(1,4)
    by (intro exp_search_ge) simp_all
  ultimately show ?thesis by simp
qed

lemma exponent_le:
  "\<bar>x\<bar> < 2 powi (k + 1) \<Longrightarrow> - 1022 \<le> k \<Longrightarrow> exponent x \<le> k"
  unfolding exponent_def by (rule exp_search_le)

lemma exponent_ge: "- 1022 \<le> exponent x"
  unfolding exponent_def using exp_search_range [of 2045 "\<bar>x\<bar>"] by simp

lemma quantum_pos: "0 < quantum x"
  by (simp add: quantum_def)

lemma quantum_le:
  assumes "\<bar>x\<bar> < 2 powi (k + 1)" and "- 1022 \<le> k"
  shows "quantum x \<le> 2 powi (k - 52)"
proof -
  from exponent_le [OF assms] have "exponent x - 52 \<le> k - 52" by simp
  then show ?thesis unfolding quantum_def by (rule power_int_increasing) simp
qed

lemma round_half_even_error: "\<bar>of_int (round_half_even y) - y\<bar> \<le> 1 / 2"
proof -
  have "of_int \<lfloor>y\<rfloor> \<le> y" "y < of_int \<lfloor>y\<rfloor> + 1" by linarith+
  then show ?thesis
    by (auto simp: round_half_even_def Let_def abs_le_iff)
qed

lemma round_half_even_of_int: "round_half_even (of_int k) = k"
  by (simp add: round_half_even_def)

lemma round_half_even_le: "y \<le> of_int k \<Longrightarrow> round_half_even y \<le> k"
proof -
  assume le: "y \<le> of_int k"
  then have fl: "\<lfloor>y\<rfloor> \<le> k" by (simp add: floor_le_iff) 
  show ?thesis
  proof (cases "y = of_int k")
    case True
    then show ?thesis by (simp add: round_half_even_of_int)
  next
    case False
    with le have "y < of_int k" by simp
    then have "\<lfloor>y\<rfloor> < k" by (simp add: floor_less_iff)
    then show ?thesis by (auto simp: round_half_even_def Let_def)
  qed
qed

lemma round_half_even_ge: "of_int k \<le> y \<Longrightarrow> k \<le> round_half_even y"
proof -
  assume "of_int k \<le> y"
  then have "k \<le> \<lfloor>y\<rfloor>" by (simp add: le_floor_iff)
  then show ?thesis by (auto simp: round_half_even_def Let_def)
qed

lemma rnd_error: "\<bar>rnd x - x\<bar> \<le> quantum x / 2"
proof -
  let ?q = "quantum x"
  have q: "0 < ?q" by (rule quantum_pos)
  have "rnd x - x = (of_int (round_half_even (x / ?q)) - x / ?q) * ?q"
    using q by (simp add: rnd_def algebra_simps)
  then have "\<bar>rnd x - x\<bar> = \<bar>of_int (round_half_even (x / ?q)) - x / ?q\<bar> * ?q"
    using q by (simp add: abs_mult)
  also have "\<dots> \<le> (1 / 2) * ?q"
    using round_half_even_error [of "x / ?q"] q by (intro mult_right_mono) simp_all
  finally show ?thesis by simp
qed

lemma inverse_quantum:
  assumes "exponent x \<le> 52"
  shows "inverse (quantum x) = 2 ^ nat (52 - exponent x)"
proof -
  have "quantum x = 2 powi (- (52 - exponent x))" by (simp add: quantum_def)
  also have "\<dots> = inverse (2 powi (52 - exponent x))" by (rule power_int_minus)
  also have "\<dots> = inverse (2 ^ nat (52 - exponent x))"
    using assms by (simp add: power_int_nonneg_exp)
  finally show ?thesis by simp
qed

lemma int_multiple_of_quantum:
  assumes "exponent x \<le> 52"
  shows "of_int c / quantum x = of_int (c * 2 ^ nat (52 - exponent x))"
  by (simp add: divide_inverse inverse_quantum [OF assms])

lemma int_as_multiple:
  assumes "exponent x \<le> 52"
  shows "of_int (c * 2 ^ nat (52 - exponent x)) * quantum x = of_int c"
proof -
  have "of_int (c * 2 ^ nat (52 - exponent x)) * quantum x = (of_int c / quantum x) * quantum x"
    by (simp only: int_multiple_of_quantum [OF assms])
  also have "\<dots> = of_int c" using quantum_pos [of x] by simp
  finally show ?thesis .
qed

lemma rnd_le_int:
  assumes "x \<le> of_int c" and "exponent x \<le> 52"
  shows "rnd x \<le> of_int c"
proof -
  let ?q = "quantum x"
  let ?K = "c * 2 ^ nat (52 - exponent x)"
  have q: "0 < ?q" by (rule quantum_pos)
  from assms(1) q have "x / ?q \<le> of_int c / ?q" by (simp add: divide_right_mono)
  also have "\<dots> = of_int ?K" by (rule int_multiple_of_quantum [OF assms(2)])
  finally have "round_half_even (x / ?q) \<le> ?K" by (rule round_half_even_le)
  then have "(of_int (round_half_even (x / ?q)) :: rat) \<le> of_int ?K" by (simp only: of_int_le_iff)
  then have "rnd x \<le> of_int ?K * ?q" unfolding rnd_def using q by (intro mult_right_mono) simp_all
  then show ?thesis by (simp only: int_as_multiple [OF assms(2)])
qed

lemma rnd_ge_int:
  assumes "of_int c \<le> x" and "exponent x \<le> 52"
  shows "of_int c \<le> rnd x"
proof -
  let ?q = "quantum x"
  let ?K = "c * 2 ^ nat (52 - exponent x)"
  have q: "0 < ?q" by (rule quantum_pos)
  from assms(1) q have "of_int c / ?q \<le> x / ?q" by (simp add: divide_right_mono)
  moreover have "of_int c / ?q = of_int ?K" by (rule int_multiple_of_quantum [OF assms(2)])
  ultimately have "of_int ?K \<le> x / ?q" by simp
  then have "?K \<le> round_half_even (x / ?q)" by (rule round_half_even_ge)
  then have "(of_int ?K :: rat) \<le> of_int (round_half_even (x / ?q))" by (simp only: of_int_le_iff)
  then have "of_int ?K * ?q \<le> rnd x" unfolding rnd_def using q by (intro mult_right_mono) simp_all
  then show ?thesis by (simp only: int_as_multiple [OF assms(2)])
qed

lemma rnd_of_int:
  assumes "\<bar>c\<bar> < 2 ^ 53"
  shows "rnd (of_int c) = of_int c"
proof -
  have "\<bar>of_int c :: rat\<bar> < 2 powi (52 + 1)"
  proof -
    have "\<bar>of_int c :: rat\<bar> = of_int \<bar>c\<bar>" by simp
    also have "\<dots> < of_int (2 ^ 53)" using assms by (simp only: of_int_less_iff)
    finally show ?thesis by simp
  qed
  then have e: "exponent (of_int c) \<le> 52" by (rule exponent_le) simp
  from rnd_le_int [OF _ e, of c] rnd_ge_int [OF _ e, of c] show ?thesis by simp
qed

lemma rnd_eval:
  assumes "2 powi e \<le> \<bar>x\<bar>" and "\<bar>x\<bar> < 2 powi (e + 1)" and "- 1022 \<le> e" and "e \<le> 1023"
  shows "rnd x = of_int (round_half_even (x / 2 powi (e - 52))) * 2 powi (e - 52)"
  by (simp add: rnd_def quantum_def exponent_eq [OF assms])

lemma rnd_numerals:
  "rnd 0 = 0" "rnd 2700 = 2700" "rnd 3600 = 3600" "rnd 7200 = 7200"
  using rnd_of_int [of 0] rnd_of_int [of 2700] rnd_of_int [of 3600] rnd_of_int [of 7200]
  by simp_all

lemma to_float_numerals: "to_float 0 = Inr 0" "to_float 3600 = Inr 3600"
  using rnd_of_int [of 0] rnd_of_int [of 3600] by (simp_all add: to_float_def)

lemma exponent_le_11: "0 \<le> x \<Longrightarrow> x \<le> 3600 \<Longrightarrow> exponent x \<le> 11"
  by (rule exponent_le) simp_all

lemma rnd_within_hour:
  assumes "0 \<le> x" and "x \<le> 3600"
  shows "0 \<le> rnd x" and "rnd x \<le> 3600" and "\<bar>rnd x - x\<bar> \<le> 1 / 2 ^ 42"
proof -
  have e: "exponent x \<le> 11" using assms by (rule exponent_le_11)
  then have e52: "exponent x \<le> 52" by simp
  from rnd_ge_int [OF _ e52, of 0] assms(1) show "0 \<le> rnd x" by simp
  from rnd_le_int [OF _ e52, of 3600] assms(2) show "rnd x \<le> 3600" by simp
  have "quantum x \<le> 2 powi (11 - 52)"
    using assms by (intro quantum_le) simp_all
  then have "quantum x \<le> 1 / 2 ^ 41" by (simp add: power_int_minus_divide)
  with rnd_error [of x] show "\<bar>rnd x - x\<bar> \<le> 1 / 2 ^ 42" by simp
qed

lemma rnd_fraction:
  assumes "0 \<le> x" and "x < 1"
  shows "0 \<le> rnd x" and "rnd x \<le> 1" and "\<bar>rnd x - x\<bar> \<le> 1 / 2 ^ 54"
proof -
  have lt: "\<bar>x\<bar> < 2 powi (- 1 + 1)" using assms by simp
  have e: "exponent x \<le> - 1" using lt by (rule exponent_le) simp
  then have e52: "exponent x \<le> 52" by simp
  from rnd_ge_int [OF _ e52, of 0] assms(1) show "0 \<le> rnd x" by simp
  from rnd_le_int [OF _ e52, of 1] assms(2) show "rnd x \<le> 1" by simp
  have "quantum x \<le> 2 powi (- 1 - 52)" using lt by (rule quantum_le) simp
  then have "quantum x \<le> 1 / 2 ^ 53" by (simp add: power_int_minus_divide)
  with rnd_error [of x] show "\<bar>rnd x - x\<bar> \<le> 1 / 2 ^ 54" by simp
qed

lemma round_half_even_down:
  assumes "0 \<le> d" and "d < 1 / 2"
  shows "round_half_even (of_int k + d) = k"
proof -
  have "\<lfloor>of_int k + d\<rfloor> = k" using assms by (intro floor_unique) simp_all
  then show ?thesis using assms by (simp add: round_half_even_def Let_def)
qed

lemma rnd_fraction_999999:
  "rnd (999999 / 1000000) = 9007190247541737 / 9007199254740992"
proof -
  have "rnd (999999 / 1000000) =
      of_int (round_half_even ((999999 / 1000000) / 2 powi (- 1 - 52))) * 2 powi (- 1 - 52)"
    by (rule rnd_eval) simp_all
  also have "(999999 / 1000000 :: rat) / 2 powi (- 1 - 52) =
      of_int 9007190247541737 + 259008 / 1000000"
    by (simp add: power_int_minus_divide)
  also have "round_half_even (of_int 9007190247541737 + 259008 / 1000000) = 9007190247541737"
    by (rule round_half_even_down) simp_all
  finally show ?thesis by (simp add: power_int_minus_divide)
qed

lemma rnd_difference:
  "rnd (9007199255 / 9007199254740992) = 9007199255 / 9007199254740992"
proof -
  have "rnd (9007199255 / 9007199254740992) =
      of_int (round_half_even ((9007199255 / 9007199254740992) / 2 powi (- 20 - 52))) * 2 powi (- 20 - 52)"
    by (rule rnd_eval) simp_all
  also have "(9007199255 / 9007199254740992 :: rat) / 2 powi (- 20 - 52) = of_int 4722366483005440"
    by (simp add: power_int_minus_divide)
  also have "round_half_even (of_int 4722366483005440) = 4722366483005440"
    by (rule round_half_even_of_int)
  finally show ?thesis by (simp add: power_int_minus_divide)
qed

section \<open>Properties of the scheduler\<close>

lemma seconds_to_next_hour_boundary_eq:
  "seconds_to_next_hour_boundary now =
     of_int (3600 - int (minute now) * 60 - int (second now)) - of_int (int (microsecond now)) / 1000000"
  by (simp add: seconds_to_next_hour_boundary_def seconds_of_day_def)

lemma seconds_till_next_hour_bounds:
  assumes "valid_time now"
  shows "0 \<le> seconds_till_next_hour now" and "seconds_till_next_hour now \<le> 3600"
    and "\<bar>seconds_till_next_hour now - seconds_to_next_hour_boundary now\<bar> \<le> 1 / 2 ^ 42 + 1 / 2 ^ 54"
proof -
  define n where "n = 3600 - int (minute now) * 60 - int (second now)"
  define u :: rat where "u = of_int (int (microsecond now)) / 1000000"
  from assms have n: "1 \<le> n" "n \<le> 3600" by (simp_all add: valid_time_def n_def)
  then have "\<bar>n\<bar> < 2 ^ 53" by simp
  then have rn: "rnd (of_int n) = of_int n" by (rule rnd_of_int)
  from assms have "microsecond now < 1000000" by (simp add: valid_time_def)
  then have u: "0 \<le> u" "u < 1" by (simp_all add: u_def)
  note q = rnd_fraction [OF u]
  let ?z = "of_int n - rnd u"
  have n': "(1::rat) \<le> of_int n" "(of_int n :: rat) \<le> 3600"
    using n by simp_all
  have z: "0 \<le> ?z" "?z \<le> 3600" using n' q(1,2) by linarith+
  note r = rnd_within_hour [OF z]
  have sth: "seconds_till_next_hour now = rnd ?z"
    by (simp add: seconds_till_next_hour_def n_def [symmetric] u_def rn)
  have ex: "seconds_to_next_hour_boundary now = of_int n - u"
    by (simp add: seconds_to_next_hour_boundary_eq n_def u_def)
  from r(1) show "0 \<le> seconds_till_next_hour now" by (simp add: sth)
  from r(2) show "seconds_till_next_hour now \<le> 3600" by (simp add: sth)
  have "\<bar>rnd ?z - (of_int n - u)\<bar> \<le> \<bar>rnd ?z - ?z\<bar> + \<bar>rnd u - u\<bar>" by linarith
  with r(3) q(3)
  show "\<bar>seconds_till_next_hour now - seconds_to_next_hour_boundary now\<bar> \<le> 1 / 2 ^ 42 + 1 / 2 ^ 54"
    unfolding sth ex by linarith
qed

lemma seconds_till_next_run_cadence_1:
  "seconds_till_next_run now 1 = Inr (rnd (seconds_till_next_hour now))"
  by (simp add: seconds_till_next_run_def more_hours_def to_float_numerals)

lemma seconds_till_next_hour_whole_second:
  assumes "valid_time now" and "microsecond now = 0"
  shows "seconds_till_next_hour now = seconds_to_next_hour_boundary now"
proof -
  define n where "n = 3600 - int (minute now) * 60 - int (second now)"
  from assms have n: "1 \<le> n" "n \<le> 3600" by (simp_all add: valid_time_def n_def)
  then have "\<bar>n\<bar> < 2 ^ 53" by simp
  then have rn: "rnd (of_int n) = of_int n" by (rule rnd_of_int)
  show ?thesis
    using assms(2) rn
    by (simp add: seconds_till_next_hour_def seconds_to_next_hour_boundary_eq
        n_def [symmetric] rnd_numerals)
qed

text \<open>
  Claim C9, as the code has it. For cadence 1 and a well-formed timestamp the computed
  delay is a float between 0 and 3600 that differs from the number of seconds left until
  the next wall-clock hour boundary by at most \<open>2\<close> to the \<open>-40\<close>, the effect of rounding
  \<open>microsecond / 1_000_000\<close> and the subtraction; it is that number exactly when the
  microsecond field is 0. For cadence 3 at 02:15:00 the delay is 2700 seconds, which ends
  at 03:00:00.
\<close>

theorem scheduler_alignment_examples:
  "(valid_time now \<longrightarrow>
      (\<exists>d. seconds_till_next_run now 1 = Inr d \<and> 0 \<le> d \<and> d \<le> 3600 \<and>
           \<bar>d - seconds_to_next_hour_boundary now\<bar> \<le> 1 / 2 ^ 40 \<and>
           (microsecond now = 0 \<longrightarrow> d = seconds_to_next_hour_boundary now))) \<and>
   seconds_till_next_run \<lparr>hour = 2, minute = 15, second = 0, microsecond = 0\<rparr> 3 = Inr 2700 \<and>
   seconds_of_day \<lparr>hour = 2, minute = 15, second = 0, microsecond = 0\<rparr> + 2700 = 3 * 3600"
proof (intro conjI impI)
  assume v: "valid_time now"
  let ?s = "seconds_till_next_hour now"
  let ?x = "seconds_to_next_hour_boundary now"
  note b = seconds_till_next_hour_bounds [OF v]
  note r = rnd_within_hour [OF b(1,2)]
  have "\<bar>rnd ?s - ?x\<bar> \<le> \<bar>rnd ?s - ?s\<bar> + \<bar>?s - ?x\<bar>" by linarith
  with r(3) b(3) have "\<bar>rnd ?s - ?x\<bar> \<le> 1 / 2 ^ 42 + (1 / 2 ^ 42 + 1 / 2 ^ 54)" by linarith
  then have err: "\<bar>rnd ?s - ?x\<bar> \<le> 1 / 2 ^ 40" by simp
  have whole: "microsecond now = 0 \<longrightarrow> rnd ?s = ?x"
  proof
    assume z: "microsecond now = 0"
    define n where "n = 3600 - int (minute now) * 60 - int (second now)"
    from v have n: "1 \<le> n" "n \<le> 3600" by (simp_all add: valid_time_def n_def)
    then have "\<bar>n\<bar> < 2 ^ 53" by simp
    then have rn: "rnd (of_int n) = of_int n" by (rule rnd_of_int)
    have "?x = of_int n" using z by (simp add: seconds_to_next_hour_boundary_eq n_def)
    with seconds_till_next_hour_whole_second [OF v z] rn show "rnd ?s = ?x" by simp
  qed
  from r(1,2) err whole
  show "\<exists>d. seconds_till_next_run now 1 = Inr d \<and> 0 \<le> d \<and> d \<le> 3600 \<and>
           \<bar>d - ?x\<bar> \<le> 1 / 2 ^ 40 \<and> (microsecond now = 0 \<longrightarrow> d = ?x)"
    by (simp add: seconds_till_next_run_cadence_1)
next
  have "to_float (0 * 3600) = Inr 0" by (simp add: to_float_numerals)
  then show "seconds_till_next_run \<lparr>hour = 2, minute = 15, second = 0, microsecond = 0\<rparr> 3 = Inr 2700"
    by (simp add: seconds_till_next_run_def more_hours_def seconds_till_next_hour_def rnd_numerals)
  show "seconds_of_day \<lparr>hour = 2, minute = 15, second = 0, microsecond = 0\<rparr> + 2700 = 3 * 3600"
    by (simp add: seconds_of_day_def)
qed

theorem scheduler_alignment_examples_witness:
  "valid_time \<lparr>hour = 13, minute = 59, second = 59, microsecond = 999999\<rparr> \<and>
   seconds_to_next_hour_boundary \<lparr>hour = 13, minute = 59, second = 59, microsecond = 999999\<rparr> = 1 / 1000000 \<and>
   (\<exists>d. seconds_till_next_run \<lparr>hour = 13, minute = 59, second = 59, microsecond = 999999\<rparr> 1 = Inr d \<and>
        0 \<le> d \<and> d \<le> 3600 \<and> \<bar>d - 1 / 1000000\<bar> \<le> 1 / 2 ^ 40) \<and>
   valid_time \<lparr>hour = 2, minute = 15, second = 0, microsecond = 0\<rparr> \<and>
   seconds_till_next_run \<lparr>hour = 2, minute = 15, second = 0, microsecond = 0\<rparr> 1 = Inr 2700"
proof -
  let ?t = "\<lparr>hour = 13, minute = 59, second = 59, microsecond = 999999\<rparr>"
  let ?t2 = "\<lparr>hour = 2, minute = 15, second = 0, microsecond = 0\<rparr>"
  have v: "valid_time ?t" "valid_time ?t2" by (simp_all add: valid_time_def)
  have e: "seconds_to_next_hour_boundary ?t = 1 / 1000000"
    "seconds_to_next_hour_boundary ?t2 = 2700"
    by (simp_all add: seconds_to_next_hour_boundary_def seconds_of_day_def)
  from scheduler_alignment_examples [of ?t] v(1) e(1)
  have a: "\<exists>d. seconds_till_next_run ?t 1 = Inr d \<and> 0 \<le> d \<and> d \<le> 3600 \<and>
     \<bar>d - 1 / 1000000\<bar> \<le> 1 / 2 ^ 40"
    by auto
  from scheduler_alignment_examples [of ?t2] v(2) e(2)
  have b: "seconds_till_next_run ?t2 1 = Inr 2700" by auto
  from v e(1) a b show ?thesis by simp
qed

text \<open>
  Claim C9 as stated has the delay equal to the seconds left until the next hour
  boundary. At 13:59:59.999999 that is one microsecond, and the code computes the float
  \<open>9007199255 / 2 ^ 53\<close>, a little more.
\<close>

theorem scheduler_rounding_counterexample:
  "seconds_till_next_run \<lparr>hour = 13, minute = 59, second = 59, microsecond = 999999\<rparr> 1 =
     Inr (9007199255 / 9007199254740992) \<and>
   seconds_to_next_hour_boundary \<lparr>hour = 13, minute = 59, second = 59, microsecond = 999999\<rparr> =
     1 / 1000000 \<and>
   seconds_till_next_run \<lparr>hour = 13, minute = 59, second = 59, microsecond = 999999\<rparr> 1 \<noteq>
     Inr (seconds_to_next_hour_boundary \<lparr>hour = 13, minute = 59, second = 59, microsecond = 999999\<rparr>)"
proof -
  let ?t = "\<lparr>hour = 13, minute = 59, second = 59, microsecond = 999999\<rparr>"
  have r1: "rnd 1 = 1" using rnd_of_int [of 1] by simp
  have s: "seconds_till_next_hour ?t = 9007199255 / 9007199254740992"
    by (simp add: seconds_till_next_hour_def r1 rnd_fraction_999999 rnd_difference)
  have d: "seconds_till_next_run ?t 1 = Inr (9007199255 / 9007199254740992)"
    by (simp add: seconds_till_next_run_cadence_1 s rnd_difference)
  have e: "seconds_to_next_hour_boundary ?t = 1 / 1000000"
    by (simp add: seconds_to_next_hour_boundary_def seconds_of_day_def)
  from d e show ?thesis by simp
qed

text \<open>
  Claim C1 asks that every tick fall on an hour boundary whose hour of day is divisible
  by the cadence. At midnight with cadence 3 the code adds \<open>(0 + 1) mod 3 = 1\<close> extra
  hour: the delay is 7200 seconds and the tick falls at 02:00, which is on an hour
  boundary but not on a multiple of 3.
\<close>

theorem cadence_3_tick_off_grid:
  "seconds_till_next_run \<lparr>hour = 0, minute = 0, second = 0, microsecond = 0\<rparr> 3 = Inr 7200 \<and>
   on_hour_boundary (seconds_of_day \<lparr>hour = 0, minute = 0, second = 0, microsecond = 0\<rparr> + 7200) \<and>
   hour_of_day (seconds_of_day \<lparr>hour = 0, minute = 0, second = 0, microsecond = 0\<rparr> + 7200) = 2 \<and>
   hour_of_day (seconds_of_day \<lparr>hour = 0, minute = 0, second = 0, microsecond = 0\<rparr> + 7200) mod 3 \<noteq> 0"
  by (simp add: seconds_till_next_run_def more_hours_def seconds_till_next_hour_def
      to_float_numerals rnd_numerals seconds_of_day_def on_hour_boundary_def hour_of_day_def)

section \<open>Properties of the session controller\<close>

lemma run_in_executor_fst:
  "fst (run_in_executor ep m s) = fst (send_message_to_chatgpt ep (messages s) m (model s) (calls s))"
  by (simp add: run_in_executor_def split: prod.splits)

lemma run_in_executor_sent: "sent (snd (run_in_executor ep m s)) = sent s"
  by (simp add: run_in_executor_def split: prod.splits)

lemma run_in_executor_messages:
  "messages (snd (run_in_executor ep m s)) =
     fst (snd (send_message_to_chatgpt ep (messages s) m (model s) (calls s)))"
  by (simp add: run_in_executor_def split: prod.splits)

lemma run_in_executor_success:
  "fst (run_in_executor ep m s) = Inr r \<Longrightarrow>
   messages (snd (run_in_executor ep m s)) =
     messages s @ [\<lparr>content = m, role = ''user''\<rparr>, \<lparr>content = r, role = ''system''\<rparr>]"
  by (simp add: run_in_executor_messages run_in_executor_fst send_message_to_chatgpt_history)

lemma run_in_executor_always:
  "run_in_executor (\<lambda>(k::nat) mdl msgs. Some r) m s =
     (Inr r, s\<lparr>messages := messages s @ [\<lparr>content = m, role = ''user''\<rparr>, \<lparr>content = r, role = ''system''\<rparr>],
               calls := Suc (calls s)\<rparr>)"
  by (simp add: run_in_executor_def send_message_to_chatgpt_def call_openai_chat_api_def
      retry_3_eval Let_def)

lemma sent_foldl_send:
  "sent (foldl (\<lambda>st line. send d line st) s xs) = sent s @ map (Pair d) xs"
  by (induction xs arbitrary: s) (simp_all add: send_def)

lemma sent_send: "sent (send d txt s) = sent s @ [(d, txt)]"
  by (simp add: send_def)

lemma send_other_fields:
  "messages (send d txt s) = messages s" "model (send d txt s) = model s"
  "calls (send d txt s) = calls s" "task_prompt (send d txt s) = task_prompt s"
  "loop_prompt (send d txt s) = loop_prompt s"
  by (simp_all add: send_def)

lemma run_in_executor_cong:
  "messages s = messages s' \<Longrightarrow> model s = model s' \<Longrightarrow> calls s = calls s' \<Longrightarrow>
   fst (run_in_executor ep m s) = fst (run_in_executor ep m s')"
  by (simp add: run_in_executor_fst)

lemma handshake_sent:
  assumes "fst (run_in_executor ep (task_prompt s) s) = Inr r"
  shows "sent (snd (handshake ep True s)) =
     sent s @ [(ToUser, instruction_message (task_prompt s)),
               (ToUser, generating_message)] @
     map (Pair ToUser)
       (if int (length r) > MAX_MESSAGE_LENGTH then split_long_string r MAX_MESSAGE_LENGTH else [r])"
proof -
  define s1 where "s1 = send ToUser (instruction_message (task_prompt s)) s"
  define s2 where "s2 = send ToUser generating_message s1"
  define s3 where "s3 = snd (run_in_executor ep (task_prompt s2) s2)"
  define s4 where "s4 = (if int (length r) > MAX_MESSAGE_LENGTH
                         then foldl (\<lambda>st line. send ToUser line st) s3
                                (split_long_string r MAX_MESSAGE_LENGTH)
                         else send ToUser r s3)"
  have tp: "task_prompt s2 = task_prompt s" by (simp add: s2_def s1_def send_other_fields)
  have "fst (run_in_executor ep (task_prompt s2) s2) = fst (run_in_executor ep (task_prompt s) s)"
    unfolding tp by (rule run_in_executor_cong) (simp_all add: s2_def s1_def send_other_fields)
  with assms have ok: "fst (run_in_executor ep (task_prompt s2) s2) = Inr r" by simp
  then have r3: "run_in_executor ep (task_prompt s2) s2 = (Inr r, s3)"
    by (simp add: s3_def prod_eq_iff)
  have sent3: "sent s3 = sent s @ [(ToUser, instruction_message (task_prompt s)),
               (ToUser, generating_message)]"
    by (simp add: s3_def run_in_executor_sent s2_def s1_def sent_send)
  have sent4: "sent s4 = sent s3 @ map (Pair ToUser)
       (if int (length r) > MAX_MESSAGE_LENGTH then split_long_string r MAX_MESSAGE_LENGTH else [r])"
    by (simp add: s4_def sent_foldl_send sent_send)
  have "snd (handshake ep True s) = snd (run_in_executor ep (loop_prompt s4) s4)"
    unfolding handshake_def
    by (simp add: Let_def s1_def [symmetric] s2_def [symmetric] r3 s4_def [symmetric]
        split: prod.splits sum.splits)
  then show ?thesis by (simp add: run_in_executor_sent sent4 sent3)
qed

text \<open>
  Claim C2, as the code has it. On the first readiness signal, when the user is found and
  the first completion returns a reply, the user is sent, in this order and before the
  loop starts: the task prompt inside the fixed text
  \<open>Your initial instruction to ChatGPT:\<close> and a code fence, then the generating
  notice, then the reply, as one message when it has at most 2000 characters and as the
  segments of \<open>split_long_string\<close> otherwise.
\<close>

theorem handshake_deliveries:
  assumes "\<not> initialized s"
    and "fst (run_in_executor ep (task_prompt s) s) = Inr r"
  shows "sent (snd (on_ready ep True s)) =
     sent s @ [(ToUser, instruction_message (task_prompt s)), (ToUser, generating_message)] @
     map (Pair ToUser)
       (if int (length r) > MAX_MESSAGE_LENGTH then split_long_string r MAX_MESSAGE_LENGTH else [r])"
proof -
  let ?s = "s\<lparr>initialized := True\<rparr>"
  have "fst (run_in_executor ep (task_prompt ?s) ?s) = fst (run_in_executor ep (task_prompt s) s)"
    by (simp add: run_in_executor_fst)
  with assms(2) have "fst (run_in_executor ep (task_prompt ?s) ?s) = Inr r" by simp
  from handshake_sent [OF this] assms(1) show ?thesis by (simp add: on_ready_def)
qed

theorem handshake_deliveries_witness:
  "\<not> initialized demo_bot \<and>
   fst (run_in_executor (\<lambda>(k::nat) mdl msgs. Some ''ok'') (task_prompt demo_bot) demo_bot) = Inr ''ok'' \<and>
   sent (snd (on_ready (\<lambda>(k::nat) mdl msgs. Some ''ok'') True demo_bot)) =
     [(ToUser, instruction_message ''Plan my day''), (ToUser, generating_message), (ToUser, ''ok'')]"
proof -
  have i: "\<not> initialized demo_bot" by (simp add: demo_bot_def)
  have h: "fst (run_in_executor (\<lambda>(k::nat) mdl msgs. Some ''ok'') (task_prompt demo_bot) demo_bot) = Inr ''ok''"
    by (simp add: run_in_executor_always)
  from handshake_deliveries [OF i h] i h show ?thesis
    by (simp add: demo_bot_def MAX_MESSAGE_LENGTH_def)
qed

text \<open>Claim C2 as stated has the task text itself as the first message; in the
  handshake example the first message is the task text inside the fixed wrapper.\<close>

theorem handshake_verbatim_counterexample:
  "map snd (sent (snd (on_ready (\<lambda>(k::nat) mdl msgs. Some ''ok'') True demo_bot))) =
     [''Your initial instruction to ChatGPT: ```Plan my day```'',
      ''ChatGPT is now generating the plan for you...'', ''ok''] \<and>
   map snd (sent (snd (on_ready (\<lambda>(k::nat) mdl msgs. Some ''ok'') True demo_bot))) \<noteq>
     [''Plan my day'', ''ChatGPT is now generating the plan for you...'', ''ok'']"
  by (simp add: on_ready_def handshake_def run_in_executor_always send_def demo_bot_def
      MAX_MESSAGE_LENGTH_def instruction_message_def generating_message_def Let_def)

lemma sublist_lower_iff:
  "sublist p (lower r) \<longleftrightarrow> (\<exists>pre w post. r = pre @ w @ post \<and> lower w = p)"
proof
  assume "sublist p (lower r)"
  then obtain ps ss where "map lower_char r = ps @ p @ ss"
    by (auto simp: sublist_def lower_def)
  then have "\<exists>pre rest. r = pre @ rest \<and> ps = map lower_char pre \<and> p @ ss = map lower_char rest"
    by (simp only: map_eq_append_conv)
  then obtain pre rest where r1: "r = pre @ rest" and r2: "p @ ss = map lower_char rest"
    by blast
  from r2 have "\<exists>w post. rest = w @ post \<and> p = map lower_char w \<and> ss = map lower_char post"
    by (simp only: append_eq_map_conv)
  then obtain w post where r3: "rest = w @ post" and r4: "map lower_char w = p"
    by auto
  from r1 r3 r4 have "r = pre @ w @ post \<and> lower w = p" by (simp add: lower_def)
  then show "\<exists>pre w post. r = pre @ w @ post \<and> lower w = p" by blast
next
  assume "\<exists>pre w post. r = pre @ w @ post \<and> lower w = p"
  then obtain pre w post where "r = pre @ w @ post" "lower w = p" by blast
  then have "lower r = lower pre @ p @ lower post" by (simp add: lower_def)
  then show "sublist p (lower r)" by (auto simp: sublist_def)
qed

lemma slice_to_drop_two: "slice_to (- 2) (xs @ [a, b]) = xs"
  by (simp add: slice_to_def)

lemma lower_demo: "lower ''Nothing To Do NOW'' = ''nothing to do now''"
  by code_simp

lemma lower_demo2: "\<not> sublist ''nothing to do now'' (lower ''Drink water'')"
  by code_simp

text \<open>
  Claim C5. For a tick whose completion returns a reply, the call appends the marker turn
  and the reply to the history. When the reply contains \<open>nothing to do now\<close> in any
  letter case, the tick leaves the history as it was before the call (the two entries
  just appended are removed and nothing else changes) and sends nothing; otherwise the
  history keeps both entries and the reply is sent to the user.
\<close>

theorem filler_suppression:
  assumes "fst (run_in_executor ep (''SCHEDULER: '' @ time) s) = Inr r"
  shows "messages (snd (run_in_executor ep (''SCHEDULER: '' @ time) s)) =
           messages s @ [\<lparr>content = ''SCHEDULER: '' @ time, role = ''user''\<rparr>,
                         \<lparr>content = r, role = ''system''\<rparr>] \<and>
         (if \<exists>pre w post. r = pre @ w @ post \<and> lower w = ''nothing to do now''
          then messages (snd (tick ep time s)) = messages s \<and>
               sent (snd (tick ep time s)) = sent s
          else messages (snd (tick ep time s)) =
                 messages (snd (run_in_executor ep (''SCHEDULER: '' @ time) s)) \<and>
               sent (snd (tick ep time s)) = sent s @ [(ToUser, r)])"
proof -
  let ?m = "''SCHEDULER: '' @ time"
  define s1 where "s1 = snd (run_in_executor ep ?m s)"
  from assms have run: "run_in_executor ep ?m s = (Inr r, s1)"
    by (simp add: s1_def prod_eq_iff)
  have m1: "messages s1 = messages s @ [\<lparr>content = ?m, role = ''user''\<rparr>, \<lparr>content = r, role = ''system''\<rparr>]"
    unfolding s1_def using assms by (rule run_in_executor_success)
  have sent1: "sent s1 = sent s" by (simp add: s1_def run_in_executor_sent)
  have t: "tick ep time s =
      (if sublist ''nothing to do now'' (lower r)
       then (Inr (), retract_last_n_message 2 s1) else (Inr (), send ToUser r s1))"
    unfolding tick_def run by simp
  have retr: "messages (retract_last_n_message 2 s1) = messages s"
    "sent (retract_last_n_message 2 s1) = sent s"
    using slice_to_drop_two [of "messages s"] by (simp_all add: retract_last_n_message_def m1 sent1)
  have snd1: "messages (send ToUser r s1) = messages s1" "sent (send ToUser r s1) = sent s @ [(ToUser, r)]"
    by (simp_all add: send_def sent1)
  show ?thesis
    unfolding sublist_lower_iff [symmetric] t s1_def [symmetric]
    using m1 retr snd1 by simp
qed

theorem filler_suppression_witness:
  "fst (run_in_executor (\<lambda>(k::nat) mdl msgs. Some ''Nothing To Do NOW.'')
          (''SCHEDULER: '' @ ''11/04/2026 10:00:00'') demo_bot) = Inr ''Nothing To Do NOW.'' \<and>
   messages (snd (tick (\<lambda>(k::nat) mdl msgs. Some ''Nothing To Do NOW.'') ''11/04/2026 10:00:00'' demo_bot)) = [] \<and>
   sent (snd (tick (\<lambda>(k::nat) mdl msgs. Some ''Nothing To Do NOW.'') ''11/04/2026 10:00:00'' demo_bot)) = [] \<and>
   fst (run_in_executor (\<lambda>(k::nat) mdl msgs. Some ''Drink water'')
          (''SCHEDULER: '' @ ''11/04/2026 10:00:00'') demo_bot) = Inr ''Drink water'' \<and>
   messages (snd (tick (\<lambda>(k::nat) mdl msgs. Some ''Drink water'') ''11/04/2026 10:00:00'' demo_bot)) =
     [\<lparr>content = ''SCHEDULER: 11/04/2026 10:00:00'', role = ''user''\<rparr>,
      \<lparr>content = ''Drink water'', role = ''system''\<rparr>] \<and>
   sent (snd (tick (\<lambda>(k::nat) mdl msgs. Some ''Drink water'') ''11/04/2026 10:00:00'' demo_bot)) =
     [(ToUser, ''Drink water'')]"
proof -
  let ?t = "''11/04/2026 10:00:00''"
  let ?ep1 = "\<lambda>(k::nat) (mdl::string) (msgs::message list). Some ''Nothing To Do NOW.''"
  let ?ep2 = "\<lambda>(k::nat) (mdl::string) (msgs::message list). Some ''Drink water''"
  have h1: "fst (run_in_executor ?ep1 (''SCHEDULER: '' @ ?t) demo_bot) = Inr ''Nothing To Do NOW.''"
    by (simp add: run_in_executor_always)
  have h2: "fst (run_in_executor ?ep2 (''SCHEDULER: '' @ ?t) demo_bot) = Inr ''Drink water''"
    by (simp add: run_in_executor_always)
  have "''Nothing To Do NOW.'' = [] @ ''Nothing To Do NOW'' @ ''.'' \<and>
        lower ''Nothing To Do NOW'' = ''nothing to do now''"
    by (simp add: lower_demo)
  then have e1: "\<exists>pre w post. ''Nothing To Do NOW.'' = pre @ w @ post \<and> lower w = ''nothing to do now''"
    by blast
  have e2: "\<not> (\<exists>pre w post. ''Drink water'' = pre @ w @ post \<and> lower w = ''nothing to do now'')"
    unfolding sublist_lower_iff [symmetric] by (rule lower_demo2)
  have m: "messages demo_bot = []" "sent demo_bot = []" by (simp_all add: demo_bot_def)
  from filler_suppression [OF h1] e1 have a: 
    "messages (snd (tick ?ep1 ?t demo_bot)) = [] \<and> sent (snd (tick ?ep1 ?t demo_bot)) = []"
    by (simp only: if_True m) 
  from filler_suppression [OF h2] e2 have b:
    "messages (snd (tick ?ep2 ?t demo_bot)) =
       [\<lparr>content = ''SCHEDULER: 11/04/2026 10:00:00'', role = ''user''\<rparr>,
        \<lparr>content = ''Drink water'', role = ''system''\<rparr>] \<and>
     sent (snd (tick ?ep2 ?t demo_bot)) = [(ToUser, ''Drink water'')]"
    by (simp add: m)
  from h1 h2 a b show ?thesis by simp
qed

lemma split_on_long: "split_on CHR '' '' (concat (replicate n ''x '') @ ''x'') = replicate (Suc n) ''x''"
  by (induction n) simp_all

lemma set_long_reply: "set long_reply = {CHR ''x'', CHR '' ''}"
  by (auto simp: long_reply_def)

lemma long_reply_no_marker: "\<not> sublist ''nothing to do now'' (lower long_reply)"
proof
  assume "sublist ''nothing to do now'' (lower long_reply)"
  then have "set ''nothing to do now'' \<subseteq> set (lower long_reply)" by (rule set_mono_sublist)
  then have "CHR ''n'' \<in> lower_char ` set long_reply" by (simp add: lower_def)
  then show False by (simp add: set_long_reply lower_char_def)
qed

lemma length_long_reply: "length long_reply = 2001"
  by (simp add: long_reply_def length_concat sum_list_replicate)

lemma long_reply_segments:
  "list_all (\<lambda>seg. int (length seg) \<le> MAX_MESSAGE_LENGTH) (split_long_string long_reply MAX_MESSAGE_LENGTH)"
proof -
  have "\<forall>w\<in>set (split_on CHR '' '' long_reply). int (length w) \<le> MAX_MESSAGE_LENGTH"
    by (simp add: long_reply_def split_on_long MAX_MESSAGE_LENGTH_def)
  from split_long_string_bound [OF this] show ?thesis by (simp add: list_all_iff)
qed

text \<open>
  Claim C3 asks that every message longer than 2000 be split before it is sent. Only the
  first reply of the handshake is. A reply of 2001 characters whose words all have length
  1 is sent whole by the \<open>g\<close> command, by a tick and by \<open>echo\<close>, although
  \<open>split_long_string\<close> would cut it into segments within the limit.
\<close>

theorem unsplit_long_replies:
  "length long_reply = 2001 \<and>
   list_all (\<lambda>w. length w = 1) (split_on CHR '' '' long_reply) \<and>
   sent (snd (g (\<lambda>(k::nat) mdl msgs. Some long_reply) ''hi'' demo_bot)) = [(ToCtx, long_reply)] \<and>
   sent (snd (tick (\<lambda>(k::nat) mdl msgs. Some long_reply) ''11/04/2026 10:00:00'' demo_bot)) =
     [(ToUser, long_reply)] \<and>
   sent (echo long_reply demo_bot) = [(ToCtx, long_reply)] \<and>
   list_all (\<lambda>seg. int (length seg) \<le> MAX_MESSAGE_LENGTH)
     (split_long_string long_reply MAX_MESSAGE_LENGTH)"
proof (intro conjI)
  show "length long_reply = 2001" by (rule length_long_reply)
  show "list_all (\<lambda>w. length w = 1) (split_on CHR '' '' long_reply)"
    by (simp add: long_reply_def split_on_long list_all_iff)
  show "sent (snd (g (\<lambda>(k::nat) mdl msgs. Some long_reply) ''hi'' demo_bot)) = [(ToCtx, long_reply)]"
    by (simp add: g_def run_in_executor_always send_def demo_bot_def)
  show "sent (snd (tick (\<lambda>(k::nat) mdl msgs. Some long_reply) ''11/04/2026 10:00:00'' demo_bot)) =
     [(ToUser, long_reply)]"
    by (simp add: tick_def run_in_executor_always long_reply_no_marker send_def demo_bot_def)
  show "sent (echo long_reply demo_bot) = [(ToCtx, long_reply)]"
    by (simp add: echo_def send_def demo_bot_def)
  show "list_all (\<lambda>seg. int (length seg) \<le> MAX_MESSAGE_LENGTH)
     (split_long_string long_reply MAX_MESSAGE_LENGTH)"
    by (rule long_reply_segments)
qed

end
